theory Spec2Isabelle
  imports Complex_Main "HOL-Library.Word"
begin

text \<open>
  A shallow embedding of the node coordination fabric of the distributed streaming system:
  the registry and load balancer, the connection and write drivers shared by all roles
  (SharedNodes/Node.py), the cookie manager of the Auth role, the node-request handler of
  the coordinator, the catalog and streaming handlers of the Content role, and the
  stream receiver of the Client. Sockets, the file system, the random generator and the
  digest function are inputs of the model; every raise of the source is a value of
  \<open>exn\<close>, and a loop that need not end is a partial function whose value
  \<open>None\<close> stands for not returning.
\<close>

section \<open>Python strings\<close>

datatype exn =
  AttributeError | IndexError | OSError | BlockingIOError | RuntimeError
  | StopIteration | StructError | ValueError | WaveError | OtherError

text \<open>
  Strings are lists of 8-bit characters; the messages, file names and cookies of the
  system are ASCII. \<open>str.lower\<close> is modelled on ASCII letters.
\<close>

definition ascii_lowercase :: string where
  "ascii_lowercase = ''abcdefghijklmnopqrstuvwxyz''"

definition ascii_uppercase :: string where
  "ascii_uppercase = ''ABCDEFGHIJKLMNOPQRSTUVWXYZ''"

definition digits :: string where
  "digits = ''0123456789''"

definition lower_char :: "char \<Rightarrow> char" where
  "lower_char c = (case map_of (zip ascii_uppercase ascii_lowercase) c of Some d \<Rightarrow> d | None \<Rightarrow> c)"

definition str_lower :: "string \<Rightarrow> string" where
  "str_lower s = map lower_char s"

definition str_endswith :: "string \<Rightarrow> string \<Rightarrow> bool" where
  "str_endswith s suffix = (length suffix \<le> length s \<and> drop (length s - length suffix) s = suffix)"

text \<open>\<open>s.split(sep)\<close> for a one-character separator: never the empty list.\<close>

fun str_split :: "char \<Rightarrow> string \<Rightarrow> string list" where
  "str_split sep [] = [[]]"
| "str_split sep (c # cs) =
     (if c = sep then [] # str_split sep cs
      else (case str_split sep cs of [] \<Rightarrow> [[c]] | f # fs \<Rightarrow> (c # f) # fs))"

fun str_join :: "string \<Rightarrow> string list \<Rightarrow> string" where
  "str_join sep [] = []"
| "str_join sep [x] = x"
| "str_join sep (x # y # ys) = x @ sep @ str_join sep (y # ys)"

text \<open>
  \<open>s.strip()\<close> removes leading and trailing whitespace: among the ASCII characters,
  the space, the controls 0x09 to 0x0D and the separators 0x1C to 0x1F.
\<close>

definition whitespace :: string where
  "whitespace =
     [CHR '' '', CHR 0x09, CHR 0x0A, CHR 0x0B, CHR 0x0C, CHR 0x0D,
      CHR 0x1C, CHR 0x1D, CHR 0x1E, CHR 0x1F]"

definition str_strip :: "string \<Rightarrow> string" where
  "str_strip s =
     rev (dropWhile (\<lambda>c. List.member whitespace c)
            (rev (dropWhile (\<lambda>c. List.member whitespace c) s)))"

text \<open>
  \<open>os.path.splitext\<close> on a directory entry (a name without path separators): the
  extension starts at the last dot, unless every character before that dot is a dot
  too (leading dots belong to the root), in which case the extension is empty.
\<close>

fun rfind :: "char \<Rightarrow> string \<Rightarrow> nat option" where
  "rfind c [] = None"
| "rfind c (x # xs) =
     (case rfind c xs of
        Some i \<Rightarrow> Some (Suc i)
      | None \<Rightarrow> if x = c then Some 0 else None)"

definition splitext :: "string \<Rightarrow> string \<times> string" where
  "splitext p =
     (case rfind CHR ''.'' p of
        None \<Rightarrow> (p, [])
      | Some dotIndex \<Rightarrow>
          if list_ex (\<lambda>c. c \<noteq> CHR ''.'') (take dotIndex p)
          then (take dotIndex p, drop dotIndex p)
          else (p, []))"

text \<open>
  \<open>str(n)\<close> of a non-negative integer, and the reading of a decimal numeral.
  \<open>str\<close> of a float is modelled for the integral values below \<open>10^16\<close>, which
  Python prints as the integer followed by \<open>.0\<close>; \<open>float(s)\<close> is modelled
  for the plain notation \<open>digits\<close> or \<open>digits.digits\<close>, the forms the sample
  rate takes on the wire, and its value is kept exact. Python also reads a sign, an
  exponent and surrounding white space, and rounds to a double: those inputs are
  outside the model, which answers \<open>ValueError\<close> for them.
\<close>

function str_nat :: "nat \<Rightarrow> string" where
  "str_nat n = (if n < 10 then [digits ! n] else str_nat (n div 10) @ [digits ! (n mod 10)])"
  by pat_completeness auto
termination
  by (relation "measure id") auto

declare str_nat.simps [simp del]

definition digit_val :: "char \<Rightarrow> nat option" where
  "digit_val c = map_of (zip digits [0, 1, 2, 3, 4, 5, 6, 7, 8, 9]) c"

fun nat_of_digits :: "nat \<Rightarrow> string \<Rightarrow> nat option" where
  "nat_of_digits acc [] = Some acc"
| "nat_of_digits acc (c # cs) =
     (case digit_val c of None \<Rightarrow> None | Some d \<Rightarrow> nat_of_digits (10 * acc + d) cs)"

datatype pynum = PyInt int | PyFloat real

fun str_num :: "pynum \<Rightarrow> string" where
  "str_num (PyInt i) = (if i < 0 then CHR ''-'' # str_nat (nat (- i)) else str_nat (nat i))"
| "str_num (PyFloat x) =
     (if x < 0 then CHR ''-'' # str_nat (nat (- \<lfloor>x\<rfloor>)) else str_nat (nat \<lfloor>x\<rfloor>)) @ ''.0''"

definition py_float :: "string \<Rightarrow> exn + real" where
  "py_float s =
     (case str_split CHR ''.'' s of
        [ip] \<Rightarrow>
          (if ip = [] then Inl ValueError
           else case nat_of_digits 0 ip of None \<Rightarrow> Inl ValueError | Some n \<Rightarrow> Inr (real n))
      | [ip, fp] \<Rightarrow>
          (if ip = [] \<and> fp = [] then Inl ValueError
           else case (nat_of_digits 0 ip, nat_of_digits 0 fp) of
                  (Some n, Some f) \<Rightarrow> Inr (real n + real f / 10 ^ length fp)
                | _ \<Rightarrow> Inl ValueError)
      | _ \<Rightarrow> Inl ValueError)"

text \<open>\<open>int(x)\<close> of a float truncates towards zero.\<close>

definition py_int :: "real \<Rightarrow> int" where
  "py_int x = (if x < 0 then \<lceil>x\<rceil> else \<lfloor>x\<rfloor>)"

section \<open>Node registry and load balancer (SharedNodes/Node.py)\<close>

text \<open>
  A registered node is a Python object; the registry list \<open>node_threads\<close> holds
  references to such objects and \<open>load_balancer\<close> mutates the selected object in
  place. Objects therefore live in a store indexed by references, and the registry is a
  list of references, so that registering one object twice, or two objects with equal
  fields, are both representable. The fields are the ones the registry and the
  coordinator read: \<open>conn_type\<close>, \<open>conn_name\<close>, \<open>conn_host\<close>,
  \<open>conn_port\<close> (host and port as they are rendered into a message) and the
  unbounded integer \<open>load\<close>.
\<close>

type_synonym ref = nat

record node =
  conn_type :: string
  conn_name :: string
  conn_host :: string
  conn_port :: string
  load :: int

record thread_manager =
  heap :: "ref \<Rightarrow> node"
  node_threads :: "ref list"

definition register :: "thread_manager \<Rightarrow> ref \<Rightarrow> thread_manager" where
  "register tm r = tm\<lparr>node_threads := node_threads tm @ [r]\<rparr>"

definition unregister :: "thread_manager \<Rightarrow> ref \<Rightarrow> thread_manager" where
  "unregister tm r =
     (if List.member (node_threads tm) r
      then tm\<lparr>node_threads := remove1 r (node_threads tm)\<rparr>
      else tm)"

definition get_nodes_by_type :: "thread_manager \<Rightarrow> string \<Rightarrow> ref list" where
  "get_nodes_by_type tm t = filter (\<lambda>r. conn_type (heap tm r) = t) (node_threads tm)"

text \<open>
  Python's \<open>min(nodes, key=lambda node: node.load)\<close> scans left to right and keeps
  the first element whose key is strictly smaller than the best seen so far.
\<close>

fun min_by_load :: "(ref \<Rightarrow> node) \<Rightarrow> ref \<Rightarrow> ref list \<Rightarrow> ref" where
  "min_by_load h best [] = best"
| "min_by_load h best (r # rs) =
     min_by_load h (if load (h r) < load (h best) then r else best) rs"

definition load_balancer :: "thread_manager \<Rightarrow> string \<Rightarrow> ref option \<times> thread_manager" where
  "load_balancer tm t =
     (case get_nodes_by_type tm t of
        [] \<Rightarrow> (None, tm)
      | r # rs \<Rightarrow>
          (let least_load_node = min_by_load (heap tm) r rs
           in (Some least_load_node,
               tm\<lparr>heap := (heap tm)(least_load_node :=
                    (heap tm least_load_node)\<lparr>load := load (heap tm least_load_node) + 1\<rparr>)\<rparr>)))"

definition update_main_load :: "thread_manager \<Rightarrow> int" where
  "update_main_load tm = foldl (\<lambda>l r. l + load (heap tm r)) 0 (node_threads tm)"

section \<open>Outbound queue and write driver (SharedNodes/Node.py)\<close>

text \<open>
  \<open>NodeWriteHandler\<close>: the \<open>running\<close> flag and the FIFO \<open>out_buffer\<close>.
  The state of every role thread extends this record.
\<close>

record write_handler =
  running :: bool
  out_buffer :: "string list"

definition push_message :: "'a write_handler_scheme \<Rightarrow> string \<Rightarrow> 'a write_handler_scheme" where
  "push_message wh message = wh\<lparr>out_buffer := out_buffer wh @ [message]\<rparr>"

definition kill_connection :: "'a write_handler_scheme \<Rightarrow> 'a write_handler_scheme" where
  "kill_connection wh = wh\<lparr>running := False\<rparr>"

text \<open>
  What one call of \<open>write\<close> observes of the socket \<open>key.fileobj\<close>: whether
  \<open>getsockname()\<close> (evaluated for the first \<open>print\<close>) succeeds, the value of
  \<open>fileno()\<close> read afterwards, and whether \<open>send\<close> succeeds. On a closed
  socket \<open>getsockname()\<close> raises \<open>OSError\<close> and \<open>fileno()\<close> is \<open>-1\<close>.
\<close>

record sock_obs =
  getsockname_ok :: bool
  fileno :: int
  send_ok :: bool

text \<open>
  The classes that construct a \<open>NodeWriteHandler(self)\<close> and so are the
  \<open>parent_node\<close> of one. \<open>defines_kill_connection\<close> records, class by class,
  whether the class (or \<open>threading.Thread\<close>, its base) has a method
  \<open>kill_connection\<close>: the only definition of that name in the repository is the
  one of \<open>NodeWriteHandler\<close> itself.
\<close>

datatype node_class =
  BootstrapNodeThread | AuthNodeThread | AuthNode | ContentNodeThread | ContentNode | ClientNode

fun defines_kill_connection :: "node_class \<Rightarrow> bool" where
  "defines_kill_connection BootstrapNodeThread = False"
| "defines_kill_connection AuthNodeThread = False"
| "defines_kill_connection AuthNode = False"
| "defines_kill_connection ContentNodeThread = False"
| "defines_kill_connection ContentNode = False"
| "defines_kill_connection ClientNode = False"

text \<open>
  \<open>write_sock\<close> is the method \<open>write\<close>. It returns the exception it raised, if any, the handler state it leaves
  behind (mutations made before a raise persist), and the messages passed to
  \<open>send\<close>. The branch for a closed socket calls \<open>self.parent_node.kill_connection()\<close>,
  an attribute lookup on the parent object, which raises \<open>AttributeError\<close> when the
  parent's class has no such method.
\<close>

definition get_nowait :: "'a write_handler_scheme \<Rightarrow> string option \<times> 'a write_handler_scheme" where
  "get_nowait wh =
     (case out_buffer wh of
        [] \<Rightarrow> (None, wh)
      | m # ms \<Rightarrow> (Some m, wh\<lparr>out_buffer := ms\<rparr>))"

definition write_sock ::
  "node_class \<Rightarrow> sock_obs \<Rightarrow> 'a write_handler_scheme \<Rightarrow> exn option \<times> 'a write_handler_scheme \<times> string list"
where
  "write_sock parent_class key wh =
     (if \<not> getsockname_ok key then (Some OSError, wh, [])
      else
        (let (message, wh1) = get_nowait wh in
         if fileno key = - 1 then
           (if defines_kill_connection parent_class
            then (None, wh1, [])
            else (Some AttributeError, wh1, []))
         else
           (case message of
              None \<Rightarrow> (None, wh1, [])
            | Some m \<Rightarrow>
                if m = [] then (None, wh1, [])
                else if send_ok key then (None, wh1, [m])
                else (Some OSError, wh1, []))))"

text \<open>
  One selector event of the loop in \<open>run\<close> of the connection threads
  (\<open>BootstrapNodeThread\<close>, \<open>AuthNodeThread\<close>, \<open>ContentNodeThread\<close>):

  \<^verbatim>\<open>if mask & EVENT_READ: self.read(key)\<close>

  \<^verbatim>\<open>if mask & EVENT_WRITE and not self.write_handler.out_buffer.empty(): self.write_handler.write(key)\<close>

  \<open>key_event\<close> is what the selector and the socket deliver for the event: the two
  bits of the mask, the text \<open>recv(1024).decode()\<close> returns when the socket is read
  (empty when the peer has closed the connection), and what \<open>fileno()\<close> and
  \<open>send\<close> give while the socket is open. \<open>sock_state\<close> records whether the thread
  has closed the socket; it is open when the event is delivered, and \<open>observe\<close> is
  what \<open>write\<close> then sees of it.

  \<open>read_key\<close> is the method \<open>read\<close>: a non-empty text is split at \<open>|\<close> and handed
  to the message handler of the class (the parameter \<open>handler\<close>, which may raise or
  not return); on an empty text \<open>read\<close> unregisters the thread and the socket and
  calls \<open>key.fileobj.close()\<close>. The thread registry is not part of this state.
  \<open>run_key\<close> is the body of the \<open>for\<close> loop for one key: an exception of
  \<open>read\<close> leaves the loop before \<open>write\<close>; it returns the exception raised, if
  any, the handler state, the messages sent and the state of the socket.
\<close>

datatype sock_state = SockOpen | SockClosed

record key_event =
  event_read :: bool
  event_write :: bool
  event_data :: string
  event_fileno :: int
  event_send_ok :: bool

definition observe :: "sock_state \<Rightarrow> key_event \<Rightarrow> sock_obs" where
  "observe sock ev =
     (case sock of
        SockOpen \<Rightarrow> \<lparr>getsockname_ok = True, fileno = event_fileno ev, send_ok = event_send_ok ev\<rparr>
      | SockClosed \<Rightarrow> \<lparr>getsockname_ok = False, fileno = - 1, send_ok = False\<rparr>)"

definition read_key ::
  "('a write_handler_scheme \<Rightarrow> string list \<Rightarrow> (exn option \<times> 'a write_handler_scheme) option)
     \<Rightarrow> key_event \<Rightarrow> 'a write_handler_scheme
     \<Rightarrow> (exn option \<times> 'a write_handler_scheme \<times> sock_state) option"
where
  "read_key handler ev st =
     (if event_data ev \<noteq> [] then
        (case handler st (str_split CHR ''|'' (event_data ev)) of
           None \<Rightarrow> None
         | Some (e, st') \<Rightarrow> Some (e, st', SockOpen))
      else Some (None, st, SockClosed))"

definition run_key ::
  "node_class
     \<Rightarrow> ('a write_handler_scheme \<Rightarrow> string list \<Rightarrow> (exn option \<times> 'a write_handler_scheme) option)
     \<Rightarrow> key_event \<Rightarrow> 'a write_handler_scheme
     \<Rightarrow> (exn option \<times> 'a write_handler_scheme \<times> string list \<times> sock_state) option"
where
  "run_key parent_class handler ev st =
     (case (if event_read ev then read_key handler ev st else Some (None, st, SockOpen)) of
        None \<Rightarrow> None
      | Some (Some e, st1, sock) \<Rightarrow> Some (Some e, st1, [], sock)
      | Some (None, st1, sock) \<Rightarrow>
          if event_write ev \<and> out_buffer st1 \<noteq> [] then
            (case write_sock parent_class (observe sock ev) st1 of
               (e, st2, out) \<Rightarrow> Some (e, st2, out, sock))
          else Some (None, st1, [], sock))"

section \<open>Connecting with retry (SharedNodes/Node.py)\<close>

text \<open>
  What can happen in one iteration of the retry loop of \<open>connect_to_node\<close>, by the
  statement that raises: \<open>socket.socket\<close> itself (then \<open>new_sock\<close> keeps its
  previous value); \<open>setblocking\<close> or \<open>connect_ex\<close> (after \<open>new_sock\<close> was
  assigned); \<open>handshake_selector.register\<close> (outside any \<open>try\<close>); the
  \<open>select\<close> loop; \<open>send\<close> with an \<open>OSError\<close> or with another
  exception; the parent selector's \<open>register\<close>, after the handshake was sent, with
  an \<open>OSError\<close> or with another exception; or nothing raises.
  The socket created in attempt \<open>i\<close> is named by \<open>i\<close>; the trace records the
  attempts made, the calls of \<open>close\<close>, the handshakes sent and the sockets
  registered with the parent's selector.
\<close>

datatype attempt_outcome =
  SocketRaises | ConnectRaises | RegisterRaises | SelectRaises
  | SendOSError | SendOtherError | ParentRegisterOSError | ParentRegisterRaises | Connected

record parent_node =
  node_type :: string
  node_name :: string
  node_host :: string
  node_port :: string

record conn_trace =
  attempts :: nat
  closed :: "nat list"
  sent :: "(nat \<times> string) list"
  registered :: "nat list"

definition handshake :: "parent_node \<Rightarrow> string" where
  "handshake p = node_type p @ ''|'' @ node_name p @ ''|'' @ node_host p @ ''|'' @ node_port p"

definition try_limit :: nat where
  "try_limit = 6"

fun connect_loop ::
  "(nat \<Rightarrow> attempt_outcome) \<Rightarrow> parent_node \<Rightarrow> nat list \<Rightarrow> nat option \<Rightarrow> conn_trace
     \<Rightarrow> (exn + nat option) \<times> conn_trace"
where
  "connect_loop env p [] new_sock tr = (Inr None, tr)"
| "connect_loop env p (attempt # rest) new_sock tr =
     (let tr1 = tr\<lparr>attempts := attempts tr + 1\<rparr> in
      case env attempt of
        SocketRaises \<Rightarrow>
          (case new_sock of
             None \<Rightarrow> (Inl AttributeError, tr1)
           | Some s \<Rightarrow> connect_loop env p rest new_sock (tr1\<lparr>closed := closed tr1 @ [s]\<rparr>))
      | ConnectRaises \<Rightarrow>
          connect_loop env p rest (Some attempt) (tr1\<lparr>closed := closed tr1 @ [attempt]\<rparr>)
      | RegisterRaises \<Rightarrow> (Inl OtherError, tr1)
      | SelectRaises \<Rightarrow> (Inr None, tr1\<lparr>closed := closed tr1 @ [attempt]\<rparr>)
      | SendOSError \<Rightarrow>
          connect_loop env p rest (Some attempt) (tr1\<lparr>closed := closed tr1 @ [attempt]\<rparr>)
      | SendOtherError \<Rightarrow> (Inl OtherError, tr1)
      | ParentRegisterOSError \<Rightarrow>
          connect_loop env p rest (Some attempt)
            (tr1\<lparr>closed := closed tr1 @ [attempt], sent := sent tr1 @ [(attempt, handshake p)]\<rparr>)
      | ParentRegisterRaises \<Rightarrow>
          (Inl OtherError, tr1\<lparr>sent := sent tr1 @ [(attempt, handshake p)]\<rparr>)
      | Connected \<Rightarrow>
          (Inr (Some attempt),
           tr1\<lparr>sent := sent tr1 @ [(attempt, handshake p)],
               registered := registered tr1 @ [attempt]\<rparr>))"

definition connect_to_node ::
  "(nat \<Rightarrow> attempt_outcome) \<Rightarrow> parent_node \<Rightarrow> (exn + nat option) \<times> conn_trace"
where
  "connect_to_node env p =
     connect_loop env p [0..<try_limit] None
       \<lparr>attempts = 0, closed = [], sent = [], registered = []\<rparr>"

section \<open>Cookie manager and login (Server/ServerNodes/AuthNode.py)\<close>

text \<open>
  The random generator is a sequence \<open>rnd\<close> of draws and a position in it;
  \<open>random.choice(seq)\<close> returns the element of \<open>seq\<close> at a random index below
  its length. A cookie is the join of \<open>len(_chars)\<close> such choices.
\<close>

definition chars :: string where
  "chars = ''abcdefghijklmnopqrstuvwxyzABCDEFGHIJKLMNOPQRSTUVWXYZ0123456789''"

definition choice :: "string \<Rightarrow> nat \<Rightarrow> char" where
  "choice seq r = seq ! (r mod length seq)"

definition new_cookie :: "(nat \<Rightarrow> nat) \<Rightarrow> nat \<Rightarrow> string" where
  "new_cookie rnd pos = map (\<lambda>i. choice chars (rnd i)) [pos..<pos + length chars]"

definition is_authenticated :: "string list \<Rightarrow> string \<Rightarrow> bool" where
  "is_authenticated client_cookies cookie = List.member client_cookies cookie"

partial_function (option) generate_cookie ::
  "(nat \<Rightarrow> nat) \<Rightarrow> string list \<Rightarrow> nat \<Rightarrow> (string \<times> string list \<times> nat) option"
where
  "generate_cookie rnd client_cookies pos =
     (let cookie = new_cookie rnd pos in
      if \<not> is_authenticated client_cookies cookie
      then Some (cookie, client_cookies @ [cookie], pos + length chars)
      else generate_cookie rnd client_cookies (pos + length chars))"

declare generate_cookie.simps [code]

definition remove_cookie :: "string list \<Rightarrow> string \<Rightarrow> string list" where
  "remove_cookie client_cookies cookie =
     (if is_authenticated client_cookies cookie then remove1 cookie client_cookies
      else client_cookies)"

definition clear_cookies :: "string list \<Rightarrow> string list" where
  "clear_cookies client_cookies = []"

text \<open>
  \<open>AuthNodeThread\<close> for a CLIENT peer: the class-wide cookie list, the position in the
  random sequence, and the thread's write handler. \<open>read\<close> splits the packet at the
  pipes and \<open>handle_client\<close> dispatches on the first field.
\<close>

record auth_thread = write_handler +
  client_cookies :: "string list"
  rnd_pos :: nat

definition auth_handle_client ::
  "(nat \<Rightarrow> nat) \<Rightarrow> auth_thread \<Rightarrow> string list \<Rightarrow> (exn + auth_thread) option"
where
  "auth_handle_client rnd st messages =
     (case messages of
        [] \<Rightarrow> Some (Inl IndexError)
      | m0 # _ \<Rightarrow>
          if m0 = ''LOGIN_DATA'' then
            (case generate_cookie rnd (client_cookies st) (rnd_pos st) of
               None \<Rightarrow> None
             | Some (cookie, cookies', pos') \<Rightarrow>
                 Some (Inr (push_message (st\<lparr>client_cookies := cookies', rnd_pos := pos'\<rparr>)
                              (''LOGIN_SUCCESS|'' @ cookie))))
          else if m0 = ''DISCONNECT'' then Some (Inr (kill_connection st))
          else Some (Inr st))"

definition auth_read :: "(nat \<Rightarrow> nat) \<Rightarrow> auth_thread \<Rightarrow> string \<Rightarrow> (exn + auth_thread) option" where
  "auth_read rnd st recv_data = auth_handle_client rnd st (str_split CHR ''|'' recv_data)"

text \<open>The client's answer to LOGIN_REQUEST, and a sequence of login flows on one Auth role.\<close>

definition login_data :: "string \<Rightarrow> string" where
  "login_data response = ''LOGIN_DATA|'' @ str_strip response"

fun login_flows :: "(nat \<Rightarrow> nat) \<Rightarrow> auth_thread \<Rightarrow> string list \<Rightarrow> (exn + auth_thread) option" where
  "login_flows rnd st [] = Some (Inr st)"
| "login_flows rnd st (response # responses) =
     (case auth_read rnd st (login_data response) of
        None \<Rightarrow> None
      | Some (Inl e) \<Rightarrow> Some (Inl e)
      | Some (Inr st') \<Rightarrow> login_flows rnd st' responses)"

section \<open>Node requests at the coordinator (Server/ServerNodes/BootstrapNode.py)\<close>

text \<open>
  \<open>BootstrapNodeThread\<close>: its write handler, the coordinator's registry, and the next
  unused reference of the object store. \<open>spawn_node\<close> is the construction of a new
  \<open>AuthNode\<close> or \<open>ContentNode\<close> object (\<open>conn_type\<close> is its node type, its
  load is 0); \<open>addr\<close> gives the host and port the new node has bound by the time the
  reply is formatted. Any other role constructs nothing and the handler returns.
\<close>

record prime_thread = write_handler +
  thread_mgr :: thread_manager
  next_ref :: ref

definition spawn_node :: "(string \<Rightarrow> string \<times> string) \<Rightarrow> string \<Rightarrow> node option" where
  "spawn_node addr role =
     (if role = ''AUTH'' then
        Some \<lparr>conn_type = ''AUTH'', conn_name = ''auth1'',
              conn_host = fst (addr role), conn_port = snd (addr role), load = 0\<rparr>
      else if role = ''CONTENT'' then
        Some \<lparr>conn_type = ''CONTENT'', conn_name = ''content1'',
              conn_host = fst (addr role), conn_port = snd (addr role), load = 0\<rparr>
      else None)"

partial_function (option) node_request_loop ::
  "(string \<Rightarrow> string \<times> string) \<Rightarrow> string \<Rightarrow> thread_manager \<Rightarrow> ref
     \<Rightarrow> (ref option \<times> thread_manager \<times> ref) option"
where
  "node_request_loop addr role m nxt =
     (case load_balancer m role of
        (Some n, m') \<Rightarrow> Some (Some n, m', nxt)
      | (None, m') \<Rightarrow>
          (case spawn_node addr role of
             None \<Rightarrow> Some (None, m', nxt)
           | Some new_node \<Rightarrow>
               node_request_loop addr role
                 (register (m'\<lparr>heap := (heap m')(nxt := new_node)\<rparr>) nxt) (Suc nxt)))"

declare node_request_loop.simps [code]

definition handle_node_request ::
  "(string \<Rightarrow> string \<times> string) \<Rightarrow> prime_thread \<Rightarrow> string list \<Rightarrow> (exn + prime_thread) option"
where
  "handle_node_request addr st messages =
     (if length messages < 3 then Some (Inl IndexError)
      else
        (case node_request_loop addr (messages ! 2) (thread_mgr st) (next_ref st) of
           None \<Rightarrow> None
         | Some (None, m', nxt') \<Rightarrow> Some (Inr (st\<lparr>thread_mgr := m', next_ref := nxt'\<rparr>))
         | Some (Some n, m', nxt') \<Rightarrow>
             Some (Inr (push_message (st\<lparr>thread_mgr := m', next_ref := nxt'\<rparr>)
                          (''NODE_FIND_SUCCESS|'' @ messages ! 1 @ ''|'' @ messages ! 2 @ ''|''
                             @ conn_host (heap m' n) @ ''|'' @ conn_port (heap m' n))))))"

section \<open>Catalog and file selection (Server/ServerNodes/ContentNode.py)\<close>

text \<open>
  \<open>ContentNodeThread\<close> in the catalog phase. \<open>files\<close> is what \<open>os.listdir\<close>
  returns for the music directory. \<open>music_files\<close> is a Python set; the model keeps it
  as a duplicate-free list in order of first occurrence, one of the iteration orders the
  set can have. With two or more names the order in which the reply lists them depends
  on that iteration order, which the model does not determine.
\<close>

record content_thread = write_handler +
  music_files :: "string list"
  file_to_stream :: "string option"
  stream_mode :: bool

definition get_music_files :: "string list \<Rightarrow> content_thread \<Rightarrow> bool \<times> content_thread" where
  "get_music_files files st =
     (if files = [] then (False, push_message st ''NO_FILES_AVAILABLE'')
      else (True,
            st\<lparr>music_files :=
                 remdups (map (\<lambda>file. str_lower (fst (splitext file)))
                            (filter (\<lambda>file. str_endswith (str_lower file) ''.wav'') files))\<rparr>))"

definition process_file_request :: "string list \<Rightarrow> content_thread \<Rightarrow> content_thread" where
  "process_file_request files st =
     (case get_music_files files st of
        (False, st') \<Rightarrow> st'
      | (True, st') \<Rightarrow> push_message st' (''FILES_AVAILABLE|'' @ str_join ''|'' (music_files st')))"

text \<open>
  The FILE_NAME branch of \<open>handle_client\<close>. \<open>framerate file\<close> is what
  \<open>wave.open(file).getframerate()\<close> returns (an unsigned field of the WAV header), or
  \<open>None\<close> when \<open>wave.open\<close> raises. The division \<open>rate / 2\<close> is Python's true
  division and yields a float.
\<close>

definition sample_rate_policy :: "nat \<Rightarrow> pynum" where
  "sample_rate_policy rate = (if rate = 22050 then PyFloat (real rate / 2) else PyInt (int rate))"

definition file_name_request ::
  "string list \<Rightarrow> (string \<Rightarrow> nat option) \<Rightarrow> content_thread \<Rightarrow> string list \<Rightarrow> exn + content_thread"
where
  "file_name_request files framerate st messages =
     (case get_music_files files st of
        (False, st') \<Rightarrow> Inr st'
      | (True, st1) \<Rightarrow>
          if length messages < 2 then Inl IndexError
          else if List.member (music_files st1) (messages ! 1) then
            (case find (\<lambda>file. str_lower file = messages ! 1 @ ''.wav'') files of
               None \<Rightarrow> Inl StopIteration
             | Some file \<Rightarrow>
                 (case framerate file of
                    None \<Rightarrow> Inl WaveError
                  | Some rate \<Rightarrow>
                      Inr (push_message (st1\<lparr>file_to_stream := Some file, stream_mode := True\<rparr>)
                             (''STREAM_MODE_ENTER|'' @ str_num (sample_rate_policy rate)))))
          else Inr (push_message st1 ''FILE_NAME_INVALID''))"

text \<open>
  The Client's side of the catalog phase (Client/ClientNodes/ClientNode.py): the answer
  to FILES_AVAILABLE carries the lower-cased, stripped console input, and
  STREAM_MODE_ENTER sets the playback rate to \<open>int(float(messages[1]))\<close>.
\<close>

record client_node = write_handler +
  client_stream_mode :: bool
  music_rate :: int

definition file_name_message :: "string \<Rightarrow> string" where
  "file_name_message response = ''FILE_NAME|'' @ str_lower (str_strip response)"

definition client_stream_mode_enter :: "client_node \<Rightarrow> string list \<Rightarrow> exn + client_node" where
  "client_stream_mode_enter st messages =
     (if length messages < 2 then Inl IndexError
      else case py_float (messages ! 1) of
             Inl e \<Rightarrow> Inl e
           | Inr x \<Rightarrow>
               Inr (push_message (st\<lparr>client_stream_mode := True, music_rate := py_int x\<rparr>)
                      ''CLIENT_STREAM_MODE_ENTER''))"

section \<open>Streaming frames (ContentNode.py, ClientNode.py)\<close>
















section \<open>Example states\<close>

text \<open>A registry with two AUTH entries of equal load and one CONTENT entry.\<close>

definition example_registry :: thread_manager where
  "example_registry =
     \<lparr>heap = (\<lambda>r. if r = 2
                then \<lparr>conn_type = ''CONTENT'', conn_name = ''content1'',
                      conn_host = ''10.30.8.123'', conn_port = ''50012'', load = 0\<rparr>
                else \<lparr>conn_type = ''AUTH'', conn_name = ''auth1'',
                      conn_host = ''10.30.8.123'', conn_port = ''50011'', load = 3\<rparr>),
      node_threads = [0, 1, 2]\<rparr>"

text \<open>
  A random sequence whose draws yield the cookies \<open>aa...a\<close>, \<open>bb...b\<close>, ... in
  turn, and an Auth thread that has just sent LOGIN_REQUEST.
\<close>

definition example_rnd :: "nat \<Rightarrow> nat" where
  "example_rnd i = i div 62"

definition example_auth :: auth_thread where
  "example_auth = \<lparr>running = True, out_buffer = [''LOGIN_REQUEST''], client_cookies = [], rnd_pos = 0\<rparr>"

definition cookie_a :: string where
  "cookie_a = ''aaaaaaaaaaaaaaaaaaaaaaaaaaaaaaaaaaaaaaaaaaaaaaaaaaaaaaaaaaaaaa''"

definition cookie_b :: string where
  "cookie_b = ''bbbbbbbbbbbbbbbbbbbbbbbbbbbbbbbbbbbbbbbbbbbbbbbbbbbbbbbbbbbbbb''"

text \<open>A Content thread with nothing queued, and a Client as the parent of a connection.\<close>

definition example_content :: content_thread where
  "example_content =
     \<lparr>running = True, out_buffer = [], music_files = [], file_to_stream = None, stream_mode = False\<rparr>"

definition example_parent :: parent_node where
  "example_parent =
     \<lparr>node_type = ''CLIENT'', node_name = ''module1'', node_host = ''None'', node_port = ''None''\<rparr>"

text \<open>
  A coordinator thread whose registry holds only the requesting Client's connection, and
  the addresses the spawned nodes bind.
\<close>

definition example_prime :: prime_thread where
  "example_prime =
     \<lparr>running = True, out_buffer = [],
      thread_mgr = \<lparr>heap = (\<lambda>r. \<lparr>conn_type = ''CLIENT'', conn_name = ''module1'',
                                  conn_host = ''None'', conn_port = ''None'', load = 1\<rparr>),
                    node_threads = [0]\<rparr>,
      next_ref = 1\<rparr>"

definition example_addr :: "string \<Rightarrow> string \<times> string" where
  "example_addr role = (''10.30.8.123'', if role = ''AUTH'' then ''50011'' else ''50012'')"

text \<open>
  A Client before streaming, and a music directory with one text file and one WAV file
  whose native frame rate is 22050.
\<close>

definition example_client :: client_node where
  "example_client = \<lparr>running = True, out_buffer = [], client_stream_mode = False, music_rate = 44100\<rparr>"

definition example_files :: "string list" where
  "example_files = [''notes.txt'', ''Song1.WAV'']"

definition example_framerate :: "string \<Rightarrow> nat option" where
  "example_framerate file = (if file = ''Song1.WAV'' then Some 22050 else None)"







section \<open>Properties of the load balancer\<close>

lemma min_by_load_mem: "min_by_load h b rs \<in> set (b # rs)"
  by (induction rs arbitrary: b) auto

lemma min_by_load_le_best: "load (h (min_by_load h b rs)) \<le> load (h b)"
proof (induction rs arbitrary: b)
  case Nil
  show ?case by simp
next
  case (Cons r rs)
  have "load (h (min_by_load h (if load (h r) < load (h b) then r else b) rs))
          \<le> load (h (if load (h r) < load (h b) then r else b))"
    by (rule Cons.IH)
  then show ?case by (simp split: if_splits)
qed

lemma min_by_load_le: "x \<in> set (b # rs) \<Longrightarrow> load (h (min_by_load h b rs)) \<le> load (h x)"
proof (induction rs arbitrary: b)
  case Nil
  then show ?case by simp
next
  case (Cons r rs)
  let ?b' = "if load (h r) < load (h b) then r else b"
  have le_b': "load (h (min_by_load h ?b' rs)) \<le> load (h ?b')"
    by (rule min_by_load_le_best)
  show ?case
  proof (cases "x \<in> set rs")
    case True
    then have "x \<in> set (?b' # rs)" by simp
    from Cons.IH [OF this] show ?thesis by simp
  next
    case False
    with Cons.prems have "x = b \<or> x = r" by auto
    with le_b' show ?thesis by (auto split: if_splits)
  qed
qed

text \<open>
  Claim C2. For every registry state and every role, \<open>load_balancer\<close> returns none
  and changes nothing when no entry of the role is registered; otherwise it returns a
  registered entry of the role whose load is minimal among the registered entries of
  the role, adds one to the load of exactly that object, and leaves every other object
  and the registry list as they were. Consequently, when another registered entry of
  the role ties with the selected one, the next selection on the resulting state returns
  a different entry.
\<close>

theorem load_balancer_least_loaded:
  "(get_nodes_by_type tm t = [] \<longrightarrow> load_balancer tm t = (None, tm)) \<and>
   (get_nodes_by_type tm t \<noteq> [] \<longrightarrow>
      (\<exists>l tm'. load_balancer tm t = (Some l, tm') \<and>
         l \<in> set (node_threads tm) \<and> conn_type (heap tm l) = t \<and>
         (\<forall>r \<in> set (node_threads tm). conn_type (heap tm r) = t \<longrightarrow> load (heap tm l) \<le> load (heap tm r)) \<and>
         heap tm' l = (heap tm l)\<lparr>load := load (heap tm l) + 1\<rparr> \<and>
         (\<forall>r. r \<noteq> l \<longrightarrow> heap tm' r = heap tm r) \<and>
         node_threads tm' = node_threads tm \<and>
         ((\<exists>r \<in> set (node_threads tm). r \<noteq> l \<and> conn_type (heap tm r) = t \<and> load (heap tm r) = load (heap tm l)) \<longrightarrow>
            (\<exists>l' tm''. load_balancer tm' t = (Some l', tm'') \<and> l' \<noteq> l))))"
proof (intro conjI impI)
  assume "get_nodes_by_type tm t = []"
  then show "load_balancer tm t = (None, tm)" by (simp add: load_balancer_def)
next
  assume ne: "get_nodes_by_type tm t \<noteq> []"
  then obtain r rs where rrs: "get_nodes_by_type tm t = r # rs"
    by (cases "get_nodes_by_type tm t") auto
  define l where "l = min_by_load (heap tm) r rs"
  define tm' where "tm' = tm\<lparr>heap := (heap tm)(l := (heap tm l)\<lparr>load := load (heap tm l) + 1\<rparr>)\<rparr>"
  have lb: "load_balancer tm t = (Some l, tm')"
    by (simp add: load_balancer_def rrs l_def tm'_def Let_def)
  have lmem: "l \<in> set (get_nodes_by_type tm t)"
    unfolding rrs l_def by (rule min_by_load_mem)
  then have l1: "l \<in> set (node_threads tm)" and l2: "conn_type (heap tm l) = t"
    by (auto simp: get_nodes_by_type_def)
  have lmin: "\<forall>x \<in> set (node_threads tm). conn_type (heap tm x) = t \<longrightarrow> load (heap tm l) \<le> load (heap tm x)"
  proof (intro ballI impI)
    fix x assume "x \<in> set (node_threads tm)" "conn_type (heap tm x) = t"
    then have "x \<in> set (r # rs)"
      unfolding rrs [symmetric] by (simp add: get_nodes_by_type_def)
    then show "load (heap tm l) \<le> load (heap tm x)"
      unfolding l_def by (rule min_by_load_le)
  qed
  have again: "\<exists>l' tm''. load_balancer tm' t = (Some l', tm'') \<and> l' \<noteq> l"
    if tie: "\<exists>x \<in> set (node_threads tm). x \<noteq> l \<and> conn_type (heap tm x) = t \<and> load (heap tm x) = load (heap tm l)"
  proof -
    from tie obtain x where x: "x \<in> set (node_threads tm)" "x \<noteq> l" "conn_type (heap tm x) = t"
      "load (heap tm x) = load (heap tm l)" by blast
    have same: "get_nodes_by_type tm' t = get_nodes_by_type tm t"
      unfolding get_nodes_by_type_def tm'_def by (rule filter_cong) auto
    define l' where "l' = min_by_load (heap tm') r rs"
    have lb': "load_balancer tm' t =
        (Some l', tm'\<lparr>heap := (heap tm')(l' := (heap tm' l')\<lparr>load := load (heap tm' l') + 1\<rparr>)\<rparr>)"
      by (simp add: load_balancer_def same rrs l'_def Let_def)
    have "x \<in> set (r # rs)"
      using x unfolding rrs [symmetric] by (simp add: get_nodes_by_type_def)
    then have "load (heap tm' l') \<le> load (heap tm' x)"
      unfolding l'_def by (rule min_by_load_le)
    also have "load (heap tm' x) = load (heap tm l)"
      using x by (simp add: tm'_def)
    finally have "load (heap tm' l') \<le> load (heap tm l)" .
    moreover have "load (heap tm' l) = load (heap tm l) + 1"
      by (simp add: tm'_def)
    ultimately have "l' \<noteq> l" by auto
    with lb' show ?thesis by blast
  qed
  show "\<exists>l tm'. load_balancer tm t = (Some l, tm') \<and>
         l \<in> set (node_threads tm) \<and> conn_type (heap tm l) = t \<and>
         (\<forall>r \<in> set (node_threads tm). conn_type (heap tm r) = t \<longrightarrow> load (heap tm l) \<le> load (heap tm r)) \<and>
         heap tm' l = (heap tm l)\<lparr>load := load (heap tm l) + 1\<rparr> \<and>
         (\<forall>r. r \<noteq> l \<longrightarrow> heap tm' r = heap tm r) \<and>
         node_threads tm' = node_threads tm \<and>
         ((\<exists>r \<in> set (node_threads tm). r \<noteq> l \<and> conn_type (heap tm r) = t \<and> load (heap tm r) = load (heap tm l)) \<longrightarrow>
            (\<exists>l' tm''. load_balancer tm' t = (Some l', tm'') \<and> l' \<noteq> l))"
    apply (rule exI [of _ l], rule exI [of _ tm'])
    using lb l1 l2 lmin again by (simp add: tm'_def)
qed

text \<open>
  The theorem at \<open>example_registry\<close>: no CLIENT entry is registered, and the two AUTH
  entries tie, so two selections in a row return different entries.
\<close>

theorem load_balancer_least_loaded_witness:
  "get_nodes_by_type example_registry ''CLIENT'' = [] \<and>
   load_balancer example_registry ''CLIENT'' = (None, example_registry) \<and>
   get_nodes_by_type example_registry ''AUTH'' \<noteq> [] \<and>
   (\<exists>l tm'. load_balancer example_registry ''AUTH'' = (Some l, tm') \<and>
      l \<in> set (node_threads example_registry) \<and> conn_type (heap example_registry l) = ''AUTH'' \<and>
      heap tm' l = (heap example_registry l)\<lparr>load := load (heap example_registry l) + 1\<rparr> \<and>
      node_threads tm' = node_threads example_registry \<and>
      (\<exists>r. r \<in> set (node_threads example_registry) \<and> r \<noteq> l \<and>
           conn_type (heap example_registry r) = ''AUTH'' \<and>
           load (heap example_registry r) = load (heap example_registry l)) \<and>
      (\<exists>l' tm''. load_balancer tm' ''AUTH'' = (Some l', tm'') \<and> l' \<noteq> l))"
proof -
  let ?tm = example_registry
  have none: "get_nodes_by_type ?tm ''CLIENT'' = []"
    by (simp add: get_nodes_by_type_def example_registry_def)
  have some: "get_nodes_by_type ?tm ''AUTH'' \<noteq> []"
    by (simp add: get_nodes_by_type_def example_registry_def)
  from load_balancer_least_loaded [of ?tm "''CLIENT''"] none
  have r1: "load_balancer ?tm ''CLIENT'' = (None, ?tm)" by blast
  from load_balancer_least_loaded [of ?tm "''AUTH''"] some
  obtain l tm' where sel: "load_balancer ?tm ''AUTH'' = (Some l, tm')"
    and l1: "l \<in> set (node_threads ?tm)" and l2: "conn_type (heap ?tm l) = ''AUTH''"
    and upd: "heap tm' l = (heap ?tm l)\<lparr>load := load (heap ?tm l) + 1\<rparr>"
    and thr: "node_threads tm' = node_threads ?tm"
    and again: "(\<exists>r \<in> set (node_threads ?tm). r \<noteq> l \<and> conn_type (heap ?tm r) = ''AUTH'' \<and>
                   load (heap ?tm r) = load (heap ?tm l)) \<longrightarrow>
                (\<exists>l' tm''. load_balancer tm' ''AUTH'' = (Some l', tm'') \<and> l' \<noteq> l)"
    by blast
  from l1 l2 have "l = 0 \<or> l = 1"
    by (auto simp: example_registry_def split: if_splits)
  then have tie: "\<exists>r. r \<in> set (node_threads ?tm) \<and> r \<noteq> l \<and> conn_type (heap ?tm r) = ''AUTH'' \<and>
                   load (heap ?tm r) = load (heap ?tm l)"
  proof
    assume "l = 0"
    then show ?thesis by (intro exI [of _ 1]) (simp add: example_registry_def)
  next
    assume "l = 1"
    then show ?thesis by (intro exI [of _ 0]) (simp add: example_registry_def)
  qed
  with again have "\<exists>l' tm''. load_balancer tm' ''AUTH'' = (Some l', tm'') \<and> l' \<noteq> l" by blast
  with none r1 some sel l1 l2 upd thr tie show ?thesis by blast
qed

section \<open>Properties of the cookie manager\<close>

lemma new_cookie_length: "length (new_cookie rnd pos) = length chars"
  by (simp add: new_cookie_def)

lemma choice_mem: "seq \<noteq> [] \<Longrightarrow> choice seq r \<in> set seq"
  by (simp add: choice_def)

lemma new_cookie_alphabet: "set (new_cookie rnd pos) \<subseteq> set chars"
proof -
  have "chars \<noteq> []" by (simp add: chars_def)
  then show ?thesis by (auto simp: new_cookie_def choice_mem)
qed

lemma generate_cookie_sound:
  assumes "generate_cookie rnd cs pos = Some res"
  shows "\<exists>k. fst res = new_cookie rnd (pos + length chars * k) \<and>
             \<not> is_authenticated cs (fst res) \<and>
             fst (snd res) = cs @ [fst res] \<and>
             snd (snd res) = pos + length chars * Suc k"
proof (rule generate_cookie.raw_induct [OF _ assms])
  fix f :: "(nat \<Rightarrow> nat) \<Rightarrow> string list \<Rightarrow> nat \<Rightarrow> (string \<times> string list \<times> nat) option"
    and rnd cs pos res
  assume IH: "\<And>rnd cs pos res. f rnd cs pos = Some res \<Longrightarrow>
      \<exists>k. fst res = new_cookie rnd (pos + length chars * k) \<and>
           \<not> is_authenticated cs (fst res) \<and>
           fst (snd res) = cs @ [fst res] \<and>
           snd (snd res) = pos + length chars * Suc k"
  assume body: "(let cookie = new_cookie rnd pos in
      if \<not> is_authenticated cs cookie
      then Some (cookie, cs @ [cookie], pos + length chars)
      else f rnd cs (pos + length chars)) = Some res"
  show "\<exists>k. fst res = new_cookie rnd (pos + length chars * k) \<and>
           \<not> is_authenticated cs (fst res) \<and>
           fst (snd res) = cs @ [fst res] \<and>
           snd (snd res) = pos + length chars * Suc k"
  proof (cases "is_authenticated cs (new_cookie rnd pos)")
    case False
    with body have "res = (new_cookie rnd pos, cs @ [new_cookie rnd pos], pos + length chars)"
      by (simp add: Let_def)
    with False show ?thesis by (intro exI [of _ 0]) simp
  next
    case True
    with body have "f rnd cs (pos + length chars) = Some res"
      by (simp add: Let_def)
    from IH [OF this] obtain k where
      k: "fst res = new_cookie rnd (pos + length chars + length chars * k)"
         "\<not> is_authenticated cs (fst res)" "fst (snd res) = cs @ [fst res]"
         "snd (snd res) = pos + length chars + length chars * Suc k" by blast
    then show ?thesis by (intro exI [of _ "Suc k"]) (simp add: add.assoc)
  qed
qed

lemma generate_cookie_returns:
  "\<not> is_authenticated cs (new_cookie rnd (pos + length chars * k)) \<Longrightarrow>
   \<exists>c pos'. generate_cookie rnd cs pos = Some (c, cs @ [c], pos')"
proof (induction k arbitrary: pos)
  case 0
  then show ?case by (subst generate_cookie.simps) (simp add: Let_def)
next
  case (Suc k)
  show ?case
  proof (cases "is_authenticated cs (new_cookie rnd pos)")
    case False
    then show ?thesis by (subst generate_cookie.simps) (simp add: Let_def)
  next
    case True
    from Suc.prems have "\<not> is_authenticated cs (new_cookie rnd (pos + length chars + length chars * k))"
      by (simp add: add.assoc)
    from Suc.IH [OF this] obtain c pos' where
      "generate_cookie rnd cs (pos + length chars) = Some (c, cs @ [c], pos')" by blast
    with True show ?thesis by (subst generate_cookie.simps) (simp add: Let_def)
  qed
qed

lemma chars_split: "chars = ascii_lowercase @ ascii_uppercase @ digits"
  by (simp add: chars_def ascii_lowercase_def ascii_uppercase_def digits_def)

lemma length_chars: "length chars = 62"
  by (simp add: chars_def)

lemma str_split_login_data:
  "str_split CHR ''|'' (login_data response) = ''LOGIN_DATA'' # str_split CHR ''|'' (str_strip response)"
  by (simp add: login_data_def split: list.splits)

lemma auth_read_login_data:
  "auth_read rnd st (login_data response) =
     (case generate_cookie rnd (client_cookies st) (rnd_pos st) of
        None \<Rightarrow> None
      | Some (cookie, cookies', pos') \<Rightarrow>
          Some (Inr (push_message (st\<lparr>client_cookies := cookies', rnd_pos := pos'\<rparr>)
                       (''LOGIN_SUCCESS|'' @ cookie))))"
  by (simp add: auth_read_def auth_handle_client_def str_split_login_data)

lemma login_flows_issued:
  assumes "distinct (client_cookies st)" and "login_flows rnd st responses = Some r"
  shows "\<exists>st' issued. r = Inr st' \<and> length issued = length responses \<and>
           distinct (client_cookies st @ issued) \<and>
           client_cookies st' = client_cookies st @ issued \<and>
           out_buffer st' = out_buffer st @ map (\<lambda>c. ''LOGIN_SUCCESS|'' @ c) issued"
  using assms
proof (induction responses arbitrary: st)
  case Nil
  then show ?case by (intro exI [of _ st] exI [of _ "[]"]) simp
next
  case (Cons response responses)
  from Cons.prems(2) obtain c cs' p' where
    gen: "generate_cookie rnd (client_cookies st) (rnd_pos st) = Some (c, cs', p')"
    by (auto simp: auth_read_login_data split: option.splits)
  define st1 where "st1 = push_message (st\<lparr>client_cookies := cs', rnd_pos := p'\<rparr>) (''LOGIN_SUCCESS|'' @ c)"
  from generate_cookie_sound [OF gen]
  have fresh: "\<not> is_authenticated (client_cookies st) c" and cs': "cs' = client_cookies st @ [c]"
    by auto
  from Cons.prems(2) gen have rest: "login_flows rnd st1 responses = Some r"
    by (simp add: auth_read_login_data st1_def)
  have cookies1: "client_cookies st1 = client_cookies st @ [c]"
    by (simp add: st1_def push_message_def cs')
  have out1: "out_buffer st1 = out_buffer st @ [''LOGIN_SUCCESS|'' @ c]"
    by (simp add: st1_def push_message_def)
  have "distinct (client_cookies st1)"
    using Cons.prems(1) fresh by (simp add: cookies1 is_authenticated_def)
  from Cons.IH [OF this rest] obtain st' issued where
    r: "r = Inr st'" and len: "length issued = length responses"
    and dist: "distinct (client_cookies st1 @ issued)"
    and cookies: "client_cookies st' = client_cookies st1 @ issued"
    and out: "out_buffer st' = out_buffer st1 @ map (\<lambda>c. ''LOGIN_SUCCESS|'' @ c) issued"
    by blast
  show ?case
    by (intro exI [of _ st'] exI [of _ "c # issued"])
       (use r len dist cookies out in \<open>simp add: cookies1 out1\<close>)
qed

lemma example_generate:
  "generate_cookie example_rnd [] 0 = Some (cookie_a, [cookie_a], 62)"
  by code_simp

lemma example_login_flows:
  "login_flows example_rnd example_auth [''alice:pw'', ''bob:pw''] =
     Some (Inr \<lparr>running = True,
                out_buffer = [''LOGIN_REQUEST'', ''LOGIN_SUCCESS|'' @ cookie_a, ''LOGIN_SUCCESS|'' @ cookie_b],
                client_cookies = [cookie_a, cookie_b], rnd_pos = 124\<rparr>)"
  by code_simp

text \<open>
  Claim C1. Cookie uniqueness. From an Auth state whose valid cookies are pairwise
  distinct, every sequence of login flows that completes issues as many cookies as there
  were LOGIN_DATA messages, the issued cookies are pairwise distinct, each is answered
  with LOGIN_SUCCESS, and the valid cookies afterwards are the old ones followed by the
  issued ones, again pairwise distinct. Whenever \<open>generate_cookie\<close> returns, its cookie
  was not in the list before and is appended to it; and it does return as soon as some
  later candidate drawn from the random sequence is not in the list.
\<close>

theorem cookie_uniqueness:
  assumes "distinct (client_cookies st)"
  shows "(\<forall>r. login_flows rnd st responses = Some r \<longrightarrow>
            (\<exists>st' issued. r = Inr st' \<and> length issued = length responses \<and> distinct issued \<and>
               client_cookies st' = client_cookies st @ issued \<and> distinct (client_cookies st') \<and>
               out_buffer st' = out_buffer st @ map (\<lambda>c. ''LOGIN_SUCCESS|'' @ c) issued)) \<and>
         (\<forall>c cs' pos'. generate_cookie rnd (client_cookies st) pos = Some (c, cs', pos') \<longrightarrow>
            \<not> is_authenticated (client_cookies st) c \<and> cs' = client_cookies st @ [c] \<and> distinct cs') \<and>
         ((\<exists>k. \<not> is_authenticated (client_cookies st) (new_cookie rnd (pos + length chars * k))) \<longrightarrow>
            (\<exists>c pos'. generate_cookie rnd (client_cookies st) pos = Some (c, client_cookies st @ [c], pos')))"
proof (intro conjI allI impI)
  fix r assume "login_flows rnd st responses = Some r"
  from login_flows_issued [OF assms this] obtain st' issued where
    *: "r = Inr st'" "length issued = length responses" "distinct (client_cookies st @ issued)"
       "client_cookies st' = client_cookies st @ issued"
       "out_buffer st' = out_buffer st @ map (\<lambda>c. ''LOGIN_SUCCESS|'' @ c) issued"
    by blast
  then show "\<exists>st' issued. r = Inr st' \<and> length issued = length responses \<and> distinct issued \<and>
               client_cookies st' = client_cookies st @ issued \<and> distinct (client_cookies st') \<and>
               out_buffer st' = out_buffer st @ map (\<lambda>c. ''LOGIN_SUCCESS|'' @ c) issued"
    by (intro exI [of _ st'] exI [of _ issued]) simp
next
  fix c cs' pos' assume gen: "generate_cookie rnd (client_cookies st) pos = Some (c, cs', pos')"
  from generate_cookie_sound [OF gen]
  show "\<not> is_authenticated (client_cookies st) c" by auto
  from generate_cookie_sound [OF gen]
  show "cs' = client_cookies st @ [c]" by auto
  from generate_cookie_sound [OF gen] assms
  show "distinct cs'" by (auto simp: is_authenticated_def)
next
  assume "\<exists>k. \<not> is_authenticated (client_cookies st) (new_cookie rnd (pos + length chars * k))"
  then show "\<exists>c pos'. generate_cookie rnd (client_cookies st) pos = Some (c, client_cookies st @ [c], pos')"
    by (auto dest: generate_cookie_returns)
qed

text \<open>
  The theorem on two login flows from the empty cookie list, with the random sequence
  \<open>example_rnd\<close>.
\<close>

theorem cookie_uniqueness_witness:
  "distinct (client_cookies example_auth) \<and>
   login_flows example_rnd example_auth [''alice:pw'', ''bob:pw''] =
     Some (Inr \<lparr>running = True,
                out_buffer = [''LOGIN_REQUEST'', ''LOGIN_SUCCESS|'' @ cookie_a, ''LOGIN_SUCCESS|'' @ cookie_b],
                client_cookies = [cookie_a, cookie_b], rnd_pos = 124\<rparr>) \<and>
   (\<exists>st' issued.
      Inr \<lparr>running = True,
           out_buffer = [''LOGIN_REQUEST'', ''LOGIN_SUCCESS|'' @ cookie_a, ''LOGIN_SUCCESS|'' @ cookie_b],
           client_cookies = [cookie_a, cookie_b], rnd_pos = 124\<rparr> = Inr st' \<and>
      length issued = length [''alice:pw'', ''bob:pw''] \<and> distinct issued \<and>
      client_cookies st' = client_cookies example_auth @ issued \<and> distinct (client_cookies st') \<and>
      out_buffer st' = out_buffer example_auth @ map (\<lambda>c. ''LOGIN_SUCCESS|'' @ c) issued) \<and>
   generate_cookie example_rnd (client_cookies example_auth) 0 = Some (cookie_a, [cookie_a], 62) \<and>
   \<not> is_authenticated (client_cookies example_auth) cookie_a \<and>
   [cookie_a] = client_cookies example_auth @ [cookie_a] \<and> distinct [cookie_a] \<and>
   \<not> is_authenticated (client_cookies example_auth) (new_cookie example_rnd (0 + length chars * 0)) \<and>
   (\<exists>c pos'. generate_cookie example_rnd (client_cookies example_auth) 0 =
       Some (c, client_cookies example_auth @ [c], pos'))"
proof -
  have d: "distinct (client_cookies example_auth)"
    by (simp add: example_auth_def)
  have g: "generate_cookie example_rnd (client_cookies example_auth) 0 = Some (cookie_a, [cookie_a], 62)"
    using example_generate by (simp add: example_auth_def)
  have f: "\<not> is_authenticated (client_cookies example_auth) (new_cookie example_rnd (0 + length chars * 0))"
    by (simp add: example_auth_def is_authenticated_def)
  from cookie_uniqueness [OF d, of example_rnd "[''alice:pw'', ''bob:pw'']" 0]
    example_login_flows g f d
  show ?thesis by blast
qed

text \<open>
  Claim C8. Every cookie returned by \<open>generate_cookie\<close> has exactly 62 characters,
  the size of the generator's alphabet, each a lower-case letter, an upper-case letter
  or a digit, and the returned list of valid cookies is the previous one with the
  cookie appended.
\<close>

theorem cookie_format:
  assumes "generate_cookie rnd cs pos = Some (c, cs', pos')"
  shows "length c = 62 \<and> length c = length chars \<and>
         set c \<subseteq> set ascii_lowercase \<union> set ascii_uppercase \<union> set digits \<and>
         cs' = cs @ [c]"
proof -
  from generate_cookie_sound [OF assms] obtain k where
    c: "c = new_cookie rnd (pos + length chars * k)" and cs': "cs' = cs @ [c]" by auto
  have "set c \<subseteq> set chars" unfolding c by (rule new_cookie_alphabet)
  then have "set c \<subseteq> set ascii_lowercase \<union> set ascii_uppercase \<union> set digits"
    by (simp add: chars_split Un_assoc)
  moreover have "length c = length chars" unfolding c by (rule new_cookie_length)
  ultimately show ?thesis using cs' by (simp add: length_chars)
qed

text \<open>The first cookie drawn from \<open>example_rnd\<close>.\<close>

theorem cookie_format_witness:
  "generate_cookie example_rnd [] 0 = Some (cookie_a, [cookie_a], 62) \<and>
   length cookie_a = 62 \<and> length cookie_a = length chars \<and>
   set cookie_a \<subseteq> set ascii_lowercase \<union> set ascii_uppercase \<union> set digits \<and>
   [cookie_a] = [] @ [cookie_a]"
  using cookie_format [OF example_generate] example_generate by simp

section \<open>Properties of the write driver\<close>

lemma get_nowait_Cons:
  "out_buffer wh = m # ms \<Longrightarrow> get_nowait wh = (Some m, wh\<lparr>out_buffer := ms\<rparr>)"
  by (simp add: get_nowait_def)

lemma no_kill_connection: "\<not> defines_kill_connection parent_class"
  by (cases parent_class) simp_all

lemma write_sock_open:
  "getsockname_ok key \<Longrightarrow> fileno key \<noteq> - 1 \<Longrightarrow> send_ok key \<Longrightarrow> out_buffer wh = m # ms \<Longrightarrow> m \<noteq> [] \<Longrightarrow>
   write_sock parent_class key wh = (None, wh\<lparr>out_buffer := ms\<rparr>, [m])"
  by (simp add: write_sock_def get_nowait_def)

lemma write_sock_closed_before:
  "\<not> getsockname_ok key \<Longrightarrow> write_sock parent_class key wh = (Some OSError, wh, [])"
  by (simp add: write_sock_def)

lemma write_sock_closed_during:
  assumes "getsockname_ok key" and "fileno key = - 1" and "out_buffer wh = m # ms"
  shows "write_sock parent_class key wh = (Some AttributeError, wh\<lparr>out_buffer := ms\<rparr>, [])"
  using assms by (simp add: write_sock_def get_nowait_def no_kill_connection)

lemma run_key_peer_closed:
  assumes "event_read ev" and "event_write ev" and "event_data ev = []" and "out_buffer st \<noteq> []"
  shows "run_key parent_class handler ev st = Some (Some OSError, st, [], SockClosed)"
  using assms by (simp add: run_key_def read_key_def observe_def write_sock_def)

text \<open>
  Claim C9. An Auth thread has \<open>LOGIN_REQUEST\<close> queued when its selector reports the
  socket readable and writable, and the peer has closed the connection: \<open>recv\<close>
  returns no data, so \<open>read\<close> closes the socket, whose descriptor is \<open>-1\<close> from
  then on; the queue is not empty, so the write driver is invoked on the dead socket in
  the same pass. It raises \<open>OSError\<close> at \<open>getsockname()\<close> in its first statement,
  before \<open>get_nowait\<close>: the message is not dequeued, the \<open>running\<close> flag stays
  true, and the test \<open>fileno() == -1\<close> is never reached. The claim says that on a
  dead socket the dequeued message is dropped and the flag is set to false.
  (\<open>write_sock_closed_during\<close>: had the test been reached, the call
  \<open>self.parent_node.kill_connection()\<close> would raise \<open>AttributeError\<close>, and the flag
  would stay true as well.)
\<close>

theorem write_after_peer_close:
  "fileno (observe SockClosed
      \<lparr>event_read = True, event_write = True, event_data = [], event_fileno = 5, event_send_ok = True\<rparr>) = - 1 \<and>
   run_key AuthNodeThread handler
     \<lparr>event_read = True, event_write = True, event_data = [], event_fileno = 5, event_send_ok = True\<rparr>
     \<lparr>running = True, out_buffer = [''LOGIN_REQUEST'']\<rparr> =
   Some (Some OSError, \<lparr>running = True, out_buffer = [''LOGIN_REQUEST'']\<rparr>, [], SockClosed)"
  by (simp add: run_key_def read_key_def observe_def write_sock_def)

section \<open>Properties of connecting with retry\<close>

text \<open>
  At most \<open>try_limit\<close> attempts are made; when every attempt fails after its socket
  was created, each socket is closed and the result is \<open>None\<close>; a returned socket is
  the one of a successful attempt, and the handshake sent on it is the last message
  sent.
\<close>

lemma connect_loop_attempts:
  "attempts (snd (connect_loop env p as new_sock tr)) \<le> attempts tr + length as"
proof (induction as arbitrary: new_sock tr)
  case Nil
  show ?case by simp
next
  case (Cons a as)
  have step: "attempts (snd (connect_loop env p as ns tr')) \<le> attempts tr + 1 + length as"
    if "attempts tr' = attempts tr + 1" for ns tr'
    using Cons.IH [of ns tr'] that by simp
  show ?case
    by (cases "env a"; cases new_sock) (auto simp: Let_def intro!: step [THEN order_trans])
qed

lemma connect_to_node_attempts: "attempts (snd (connect_to_node env p)) \<le> try_limit"
  using connect_loop_attempts [of env p "[0..<try_limit]" None
      "\<lparr>attempts = 0, closed = [], sent = [], registered = []\<rparr>"]
  by (simp add: connect_to_node_def)

lemma connect_loop_retry:
  assumes "\<forall>i \<in> set as. env i = ConnectRaises \<or> env i = SendOSError"
  shows "connect_loop env p as new_sock tr =
           (Inr None, tr\<lparr>attempts := attempts tr + length as, closed := closed tr @ as\<rparr>)"
  using assms
proof (induction as arbitrary: new_sock tr)
  case Nil
  show ?case by simp
next
  case (Cons a as)
  then have a: "env a = ConnectRaises \<or> env a = SendOSError"
    and rest: "\<forall>i \<in> set as. env i = ConnectRaises \<or> env i = SendOSError" by auto
  from a show ?case
    by (auto simp: Let_def Cons.IH [OF rest])
qed

lemma connect_retry_exhausted:
  assumes "\<forall>i < try_limit. env i = ConnectRaises \<or> env i = SendOSError"
  shows "connect_to_node env p =
           (Inr None, \<lparr>attempts = try_limit, closed = [0..<try_limit], sent = [], registered = []\<rparr>)"
proof -
  from assms have "\<forall>i \<in> set [0..<try_limit]. env i = ConnectRaises \<or> env i = SendOSError"
    by simp
  from connect_loop_retry [OF this] show ?thesis
    by (simp add: connect_to_node_def)
qed

lemma connect_loop_success:
  assumes "fst (connect_loop env p as new_sock tr) = Inr (Some s)"
  shows "s \<in> set as \<and> env s = Connected \<and>
         (\<exists>earlier. sent (snd (connect_loop env p as new_sock tr)) =
                      sent tr @ earlier @ [(s, handshake p)])"
  using assms
proof (induction as arbitrary: new_sock tr)
  case Nil
  then show ?case by simp
next
  case (Cons a as)
  show ?case
  proof (cases "env a")
    case SocketRaises
    with Cons.prems show ?thesis
      by (cases new_sock) (auto simp: Let_def dest!: Cons.IH)
  next
    case ConnectRaises
    with Cons.prems show ?thesis by (auto simp: Let_def dest!: Cons.IH)
  next
    case SendOSError
    with Cons.prems show ?thesis by (auto simp: Let_def dest!: Cons.IH)
  next
    case ParentRegisterOSError
    with Cons.prems have
      "fst (connect_loop env p as (Some a)
              (tr\<lparr>attempts := attempts tr + 1, closed := closed tr @ [a],
                  sent := sent tr @ [(a, handshake p)]\<rparr>)) = Inr (Some s)"
      by (simp add: Let_def)
    from Cons.IH [OF this] ParentRegisterOSError show ?thesis
      by (auto simp: Let_def)
  next
    case Connected
    with Cons.prems show ?thesis by (auto simp: Let_def)
  qed (use Cons.prems in \<open>auto simp: Let_def\<close>)
qed

lemma connect_to_node_success:
  assumes "fst (connect_to_node env p) = Inr (Some s)"
  shows "s < try_limit \<and> env s = Connected \<and>
         (\<exists>earlier. sent (snd (connect_to_node env p)) = earlier @ [(s, handshake p)])"
  using connect_loop_success [of env p "[0..<try_limit]" None
      "\<lparr>attempts = 0, closed = [], sent = [], registered = []\<rparr>" s] assms
  by (simp add: connect_to_node_def)

text \<open>
  Claim C5. When \<open>socket.socket\<close> raises in the first attempt, \<open>new_sock\<close> is
  still \<open>None\<close> in the handler, \<open>new_sock.close()\<close> raises
  \<open>AttributeError\<close>, and \<open>connect_to_node\<close> raises after one attempt instead of
  retrying and returning \<open>None\<close>.
\<close>

theorem connect_first_socket_raises:
  "connect_to_node (\<lambda>attempt. SocketRaises) example_parent =
     (Inl AttributeError, \<lparr>attempts = 1, closed = [], sent = [], registered = []\<rparr>)"
  by (simp add: connect_to_node_def try_limit_def upt_rec)

section \<open>Properties of the catalog\<close>

lemma empty_directory_no_files:
  "process_file_request [] st = push_message st ''NO_FILES_AVAILABLE''"
  by (simp add: process_file_request_def get_music_files_def)

text \<open>
  Claim C4. A FILE_REQUEST against a directory that holds no \<open>.wav\<close> file but is
  not empty: the catalog is empty, and the reply is FILES_AVAILABLE followed by an empty
  list of names, not NO_FILES_AVAILABLE. The test for an empty catalog is made on the
  directory listing, before the \<open>.wav\<close> entries are selected.
\<close>

theorem file_request_without_music:
  "process_file_request [''notes.txt''] example_content =
     example_content\<lparr>out_buffer := [''FILES_AVAILABLE|'']\<rparr>"
  by (simp add: process_file_request_def get_music_files_def example_content_def push_message_def
      str_endswith_def str_lower_def lower_char_def ascii_uppercase_def ascii_lowercase_def)

text \<open>
  Claim C10. A directory whose only entry is the file \<open>.wav\<close>: \<open>splitext\<close>
  leaves the name whole, so the reply to FILE_REQUEST lists the name \<open>.wav\<close>; the
  request FILE_NAME for that name passes the membership test, and the search for a
  directory entry named \<open>.wav.wav\<close> then raises \<open>StopIteration\<close>. No
  STREAM_MODE_ENTER is queued, whatever the audio files contain.
\<close>

theorem listed_name_not_streamable:
  "out_buffer (process_file_request [''.wav''] example_content) = [''FILES_AVAILABLE|.wav''] \<and>
   file_name_request [''.wav''] framerate example_content
     (str_split CHR ''|'' (file_name_message ''.wav'')) = Inl StopIteration"
  by (simp add: process_file_request_def get_music_files_def example_content_def push_message_def
      file_name_request_def file_name_message_def str_strip_def whitespace_def splitext_def
      str_endswith_def str_lower_def lower_char_def ascii_uppercase_def ascii_lowercase_def)

section \<open>Properties of the node-request handler\<close>

lemma load_balancer_none:
  "get_nodes_by_type m role = [] \<Longrightarrow> load_balancer m role = (None, m)"
  by (simp add: load_balancer_def)

lemma load_balancer_some:
  assumes "get_nodes_by_type m role \<noteq> []"
  shows "\<exists>n m'. load_balancer m role = (Some n, m') \<and> n \<in> set (node_threads m) \<and>
           conn_type (heap m n) = role \<and> node_threads m' = node_threads m \<and>
           heap m' n = (heap m n)\<lparr>load := load (heap m n) + 1\<rparr>"
proof -
  from assms obtain r rs where rrs: "get_nodes_by_type m role = r # rs"
    by (cases "get_nodes_by_type m role") auto
  have "min_by_load (heap m) r rs \<in> set (get_nodes_by_type m role)"
    unfolding rrs by (rule min_by_load_mem)
  then have "min_by_load (heap m) r rs \<in> set (node_threads m)"
    and "conn_type (heap m (min_by_load (heap m) r rs)) = role"
    by (auto simp: get_nodes_by_type_def)
  then show ?thesis by (simp add: load_balancer_def rrs Let_def)
qed

lemma spawn_node_type: "spawn_node addr role = Some new_node \<Longrightarrow> conn_type new_node = role"
  by (auto simp: spawn_node_def split: if_splits)

lemma spawn_node_known:
  "role = ''AUTH'' \<or> role = ''CONTENT'' \<Longrightarrow> \<exists>new_node. spawn_node addr role = Some new_node"
  by (auto simp: spawn_node_def)

lemma spawn_node_unknown:
  "role \<noteq> ''AUTH'' \<Longrightarrow> role \<noteq> ''CONTENT'' \<Longrightarrow> spawn_node addr role = None"
  by (simp add: spawn_node_def)

lemma node_request_loop_found:
  assumes "get_nodes_by_type m role \<noteq> []"
  shows "\<exists>n m'. node_request_loop addr role m nxt = Some (Some n, m', nxt) \<and>
           n \<in> set (node_threads m') \<and> conn_type (heap m' n) = role \<and>
           node_threads m' = node_threads m"
proof -
  from load_balancer_some [OF assms] obtain n m' where
    lb: "load_balancer m role = (Some n, m')" and n: "n \<in> set (node_threads m)"
    and ty: "conn_type (heap m n) = role" and nt: "node_threads m' = node_threads m"
    and hp: "heap m' n = (heap m n)\<lparr>load := load (heap m n) + 1\<rparr>" by blast
  have "node_request_loop addr role m nxt = Some (Some n, m', nxt)"
    by (subst node_request_loop.simps) (simp add: lb)
  with n ty nt hp show ?thesis by simp
qed

lemma node_request_loop_spawn:
  assumes none: "get_nodes_by_type m role = []" and sp: "spawn_node addr role = Some new_node"
  shows "\<exists>n m'. node_request_loop addr role m nxt = Some (Some n, m', Suc nxt) \<and>
           n \<in> set (node_threads m') \<and> conn_type (heap m' n) = role \<and>
           node_threads m' = node_threads m @ [nxt]"
proof -
  define m1 where "m1 = register (m\<lparr>heap := (heap m)(nxt := new_node)\<rparr>) nxt"
  have "nxt \<in> set (get_nodes_by_type m1 role)"
    using spawn_node_type [OF sp] by (simp add: m1_def register_def get_nodes_by_type_def)
  then have "get_nodes_by_type m1 role \<noteq> []" by auto
  from node_request_loop_found [OF this, of addr "Suc nxt"] obtain n m' where
    found: "node_request_loop addr role m1 (Suc nxt) = Some (Some n, m', Suc nxt)"
    and n: "n \<in> set (node_threads m')" and ty: "conn_type (heap m' n) = role"
    and nt: "node_threads m' = node_threads m1" by blast
  have "node_request_loop addr role m nxt = node_request_loop addr role m1 (Suc nxt)"
    by (subst node_request_loop.simps) (simp add: load_balancer_none [OF none] sp m1_def)
  with found n ty nt show ?thesis by (simp add: m1_def register_def)
qed

lemma node_request_loop_dropped:
  assumes "get_nodes_by_type m role = []" and "spawn_node addr role = None"
  shows "node_request_loop addr role m nxt = Some (None, m, nxt)"
  by (subst node_request_loop.simps) (simp add: load_balancer_none assms)

lemma example_node_request:
  "handle_node_request example_addr example_prime [''NODE_REQUEST'', ''CLIENT'', ''AUTH''] =
     Some (Inr \<lparr>running = True,
                out_buffer = [''NODE_FIND_SUCCESS|CLIENT|AUTH|10.30.8.123|50011''],
                thread_mgr = \<lparr>heap = (heap (thread_mgr example_prime))
                    (1 := \<lparr>conn_type = ''AUTH'', conn_name = ''auth1'',
                           conn_host = ''10.30.8.123'', conn_port = ''50011'', load = 1\<rparr>),
                  node_threads = [0, 1]\<rparr>,
                next_ref = 2\<rparr>)"
  apply (simp add: handle_node_request_def example_prime_def)
  apply (subst node_request_loop.simps)
  apply (simp add: load_balancer_def get_nodes_by_type_def spawn_node_def example_addr_def register_def)
  apply (subst node_request_loop.simps)
  apply (simp add: load_balancer_def get_nodes_by_type_def push_message_def)
  done


lemma example_node_request_dropped_pre:
  "get_nodes_by_type (thread_mgr example_prime) ''PRIME'' = []"
  by (simp add: get_nodes_by_type_def example_prime_def)

text \<open>
  Claim C7. A NODE_REQUEST with at least the two fields requester and wanted role. If
  the wanted role is AUTH or CONTENT the handler returns, having queued exactly one
  reply NODE_FIND_SUCCESS with the requester, the wanted role and the host and port of a
  registered node of that role; it has registered one new node when no node of the role
  was registered, and none otherwise. If the wanted role is anything else and no node
  of it is registered, the handler returns with the state, and so the queue, unchanged.
\<close>

theorem node_request_reply:
  assumes "3 \<le> length messages"
  shows "(messages ! 2 = ''AUTH'' \<or> messages ! 2 = ''CONTENT'' \<longrightarrow>
           (\<exists>st' n. handle_node_request addr st messages = Some (Inr st') \<and>
              n \<in> set (node_threads (thread_mgr st')) \<and>
              conn_type (heap (thread_mgr st') n) = messages ! 2 \<and>
              out_buffer st' = out_buffer st @
                [''NODE_FIND_SUCCESS|'' @ messages ! 1 @ ''|'' @ messages ! 2 @ ''|''
                   @ conn_host (heap (thread_mgr st') n) @ ''|'' @ conn_port (heap (thread_mgr st') n)] \<and>
              (if get_nodes_by_type (thread_mgr st) (messages ! 2) = []
               then node_threads (thread_mgr st') = node_threads (thread_mgr st) @ [next_ref st]
               else node_threads (thread_mgr st') = node_threads (thread_mgr st)))) \<and>
         (messages ! 2 \<noteq> ''AUTH'' \<and> messages ! 2 \<noteq> ''CONTENT'' \<and>
          get_nodes_by_type (thread_mgr st) (messages ! 2) = [] \<longrightarrow>
            handle_node_request addr st messages = Some (Inr st))"
proof (intro conjI impI)
  assume known: "messages ! 2 = ''AUTH'' \<or> messages ! 2 = ''CONTENT''"
  let ?role = "messages ! 2"
  let ?goal = "\<exists>st' n. handle_node_request addr st messages = Some (Inr st') \<and>
              n \<in> set (node_threads (thread_mgr st')) \<and>
              conn_type (heap (thread_mgr st') n) = messages ! 2 \<and>
              out_buffer st' = out_buffer st @
                [''NODE_FIND_SUCCESS|'' @ messages ! 1 @ ''|'' @ messages ! 2 @ ''|''
                   @ conn_host (heap (thread_mgr st') n) @ ''|'' @ conn_port (heap (thread_mgr st') n)] \<and>
              (if get_nodes_by_type (thread_mgr st) (messages ! 2) = []
               then node_threads (thread_mgr st') = node_threads (thread_mgr st) @ [next_ref st]
               else node_threads (thread_mgr st') = node_threads (thread_mgr st))"
  have len: "\<not> length messages < 3" using assms by simp
  show ?goal
  proof (cases "get_nodes_by_type (thread_mgr st) ?role = []")
    case False
    from node_request_loop_found [OF False, of addr "next_ref st"] obtain n m' where
      loop: "node_request_loop addr ?role (thread_mgr st) (next_ref st) = Some (Some n, m', next_ref st)"
      and n: "n \<in> set (node_threads m')" and ty: "conn_type (heap m' n) = ?role"
      and nt: "node_threads m' = node_threads (thread_mgr st)" by blast
    show ?thesis
      apply (rule exI [of _ "push_message (st\<lparr>thread_mgr := m', next_ref := next_ref st\<rparr>)
                (''NODE_FIND_SUCCESS|'' @ messages ! 1 @ ''|'' @ messages ! 2 @ ''|''
                   @ conn_host (heap m' n) @ ''|'' @ conn_port (heap m' n))"])
      apply (rule exI [of _ n])
      using False n ty nt by (simp add: handle_node_request_def len loop push_message_def)
  next
    case True
    from spawn_node_known [OF known, of addr] obtain new_node where
      sp: "spawn_node addr ?role = Some new_node" by blast
    from node_request_loop_spawn [OF True sp, of "next_ref st"] obtain n m' where
      loop: "node_request_loop addr ?role (thread_mgr st) (next_ref st) = Some (Some n, m', Suc (next_ref st))"
      and n: "n \<in> set (node_threads m')" and ty: "conn_type (heap m' n) = ?role"
      and nt: "node_threads m' = node_threads (thread_mgr st) @ [next_ref st]" by blast
    show ?thesis
      apply (rule exI [of _ "push_message (st\<lparr>thread_mgr := m', next_ref := Suc (next_ref st)\<rparr>)
                (''NODE_FIND_SUCCESS|'' @ messages ! 1 @ ''|'' @ messages ! 2 @ ''|''
                   @ conn_host (heap m' n) @ ''|'' @ conn_port (heap m' n))"])
      apply (rule exI [of _ n])
      using True n ty nt by (simp add: handle_node_request_def len loop push_message_def)
  qed
next
  assume "messages ! 2 \<noteq> ''AUTH'' \<and> messages ! 2 \<noteq> ''CONTENT'' \<and>
          get_nodes_by_type (thread_mgr st) (messages ! 2) = []"
  then have "node_request_loop addr (messages ! 2) (thread_mgr st) (next_ref st) =
               Some (None, thread_mgr st, next_ref st)"
    by (intro node_request_loop_dropped spawn_node_unknown) simp_all
  then show "handle_node_request addr st messages = Some (Inr st)"
    using assms by (simp add: handle_node_request_def)
qed

text \<open>
  The theorem at \<open>example_prime\<close>: a request for AUTH spawns and registers a node and
  is answered with its address; a request for the role PRIME is dropped.
\<close>

theorem node_request_reply_witness:
  "3 \<le> length [''NODE_REQUEST'', ''CLIENT'', ''AUTH''] \<and>
   [''NODE_REQUEST'', ''CLIENT'', ''AUTH''] ! 2 = ''AUTH'' \<and>
   (\<exists>st' n. handle_node_request example_addr example_prime [''NODE_REQUEST'', ''CLIENT'', ''AUTH''] = Some (Inr st') \<and>
      n \<in> set (node_threads (thread_mgr st')) \<and>
      conn_type (heap (thread_mgr st') n) = ''AUTH'' \<and>
      out_buffer st' = [''NODE_FIND_SUCCESS|CLIENT|AUTH|10.30.8.123|50011''] \<and>
      node_threads (thread_mgr st') = [0, 1]) \<and>
   [''NODE_REQUEST'', ''CLIENT'', ''PRIME''] ! 2 \<noteq> ''AUTH'' \<and>
   [''NODE_REQUEST'', ''CLIENT'', ''PRIME''] ! 2 \<noteq> ''CONTENT'' \<and>
   get_nodes_by_type (thread_mgr example_prime) ([''NODE_REQUEST'', ''CLIENT'', ''PRIME''] ! 2) = [] \<and>
   handle_node_request example_addr example_prime [''NODE_REQUEST'', ''CLIENT'', ''PRIME''] =
     Some (Inr example_prime)"
proof -
  have l1: "3 \<le> length [''NODE_REQUEST'', ''CLIENT'', ''AUTH'']" by simp
  have l2: "3 \<le> length [''NODE_REQUEST'', ''CLIENT'', ''PRIME'']" by simp
  from node_request_reply [OF l1, of example_addr example_prime]
  obtain st' n where
    r: "handle_node_request example_addr example_prime [''NODE_REQUEST'', ''CLIENT'', ''AUTH''] = Some (Inr st')"
    and n: "n \<in> set (node_threads (thread_mgr st'))"
    and ty: "conn_type (heap (thread_mgr st') n) = ''AUTH''"
    by auto
  from r have st': "st' = \<lparr>running = True,
                out_buffer = [''NODE_FIND_SUCCESS|CLIENT|AUTH|10.30.8.123|50011''],
                thread_mgr = \<lparr>heap = (heap (thread_mgr example_prime))
                    (1 := \<lparr>conn_type = ''AUTH'', conn_name = ''auth1'',
                           conn_host = ''10.30.8.123'', conn_port = ''50011'', load = 1\<rparr>),
                  node_threads = [0, 1]\<rparr>,
                next_ref = 2\<rparr>"
    by (simp add: example_node_request)
  have a: "\<exists>st' n. handle_node_request example_addr example_prime [''NODE_REQUEST'', ''CLIENT'', ''AUTH''] = Some (Inr st') \<and>
      n \<in> set (node_threads (thread_mgr st')) \<and>
      conn_type (heap (thread_mgr st') n) = ''AUTH'' \<and>
      out_buffer st' = [''NODE_FIND_SUCCESS|CLIENT|AUTH|10.30.8.123|50011''] \<and>
      node_threads (thread_mgr st') = [0, 1]"
    apply (rule exI [of _ st'], rule exI [of _ n])
    using r n ty by (simp add: st')
  from node_request_reply [OF l2, of example_addr example_prime] example_node_request_dropped_pre
  have b: "handle_node_request example_addr example_prime [''NODE_REQUEST'', ''CLIENT'', ''PRIME''] =
     Some (Inr example_prime)" by simp
  from a b example_node_request_dropped_pre show ?thesis by simp
qed

section \<open>Properties of the sample-rate report\<close>

lemma digits_all:
  "\<forall>d \<in> set [0..<10]. digit_val (digits ! d) = Some d \<and> digits ! d \<noteq> CHR ''.'' \<and>
      digits ! d \<noteq> CHR ''|''"
  by (simp add: upt_rec digit_val_def digits_def)

lemma digit_val_digits: "d < 10 \<Longrightarrow> digit_val (digits ! d) = Some d"
  using digits_all by simp

lemma digits_not_dot: "d < 10 \<Longrightarrow> digits ! d \<noteq> CHR ''.''"
  using digits_all by simp

lemma digits_pipe: "d < 10 \<Longrightarrow> digits ! d \<noteq> CHR ''|''"
  using digits_all by simp

lemma nat_of_digits_snoc:
  "nat_of_digits acc (s @ [c]) =
     (case nat_of_digits acc s of
        None \<Rightarrow> None
      | Some a \<Rightarrow> (case digit_val c of None \<Rightarrow> None | Some d \<Rightarrow> Some (10 * a + d)))"
  by (induction s arbitrary: acc) (auto split: option.splits)

lemma nat_of_digits_str_nat: "nat_of_digits 0 (str_nat n) = Some n"
proof (induction n rule: str_nat.induct)
  case (1 n)
  show ?case
  proof (cases "n < 10")
    case True
    then show ?thesis by (subst str_nat.simps) (simp add: digit_val_digits)
  next
    case False
    with 1 have IH: "nat_of_digits 0 (str_nat (n div 10)) = Some (n div 10)" by simp
    have "n mod 10 < 10" by simp
    from digit_val_digits [OF this] IH False show ?thesis
      by (subst str_nat.simps) (simp add: nat_of_digits_snoc)
  qed
qed

lemma str_nat_no_dot: "CHR ''.'' \<notin> set (str_nat n)"
proof (induction n rule: str_nat.induct)
  case (1 n)
  show ?case
  proof (cases "n < 10")
    case True
    then show ?thesis by (subst str_nat.simps) (simp add: digits_not_dot [symmetric])
  next
    case False
    with 1 have "CHR ''.'' \<notin> set (str_nat (n div 10))" by simp
    moreover have "digits ! (n mod 10) \<noteq> CHR ''.''" by (rule digits_not_dot) simp
    ultimately show ?thesis using False by (subst str_nat.simps) simp
  qed
qed

lemma str_nat_not_Nil: "str_nat n \<noteq> []"
  by (subst str_nat.simps) simp

lemma str_split_absent: "sep \<notin> set s \<Longrightarrow> str_split sep s = [s]"
  by (induction s) auto

lemma str_split_first: "sep \<notin> set s \<Longrightarrow> str_split sep (s @ sep # t) = s # str_split sep t"
  by (induction s) auto

lemma py_float_str_nat: "py_float (str_nat n) = Inr (real n)"
  by (simp add: py_float_def str_split_absent [OF str_nat_no_dot] str_nat_not_Nil nat_of_digits_str_nat)

lemma py_float_str_nat_point_zero: "py_float (str_nat n @ ''.0'') = Inr (real n)"
proof -
  have "str_split CHR ''.'' (str_nat n @ CHR ''.'' # ''0'') = [str_nat n, ''0'']"
    by (simp add: str_split_first [OF str_nat_no_dot])
  then show ?thesis
    by (simp add: py_float_def str_nat_not_Nil nat_of_digits_str_nat digit_val_def digits_def)
qed

lemma py_int_real: "py_int (real n) = int n"
  by (simp add: py_int_def)

lemma str_num_policy:
  "str_num (sample_rate_policy rate) = (if rate = 22050 then str_nat 11025 @ ''.0'' else str_nat rate)"
  by (simp add: sample_rate_policy_def)

lemma str_nat_11025: "str_nat 11025 = ''11025''"
  by (simp add: str_nat.simps digits_def)

lemma py_float_policy:
  "py_float (str_num (sample_rate_policy rate)) = Inr (if rate = 22050 then 11025 else real rate)"
  using py_float_str_nat_point_zero [of 11025]
  by (simp add: str_num_policy py_float_str_nat)

lemma example_get_music_files:
  "get_music_files example_files example_content = (True, example_content\<lparr>music_files := [''song1'']\<rparr>)"
  by (simp add: get_music_files_def example_files_def splitext_def
      str_endswith_def str_lower_def lower_char_def ascii_uppercase_def ascii_lowercase_def)

lemma example_file_name_message:
  "str_split CHR ''|'' (file_name_message '' SONG1 '') = [''FILE_NAME'', ''song1'']"
  by (simp add: file_name_message_def str_strip_def whitespace_def
      str_lower_def lower_char_def ascii_uppercase_def ascii_lowercase_def)

lemma example_find:
  "find (\<lambda>file. str_lower file = [''FILE_NAME'', ''song1''] ! 1 @ ''.wav'') example_files = Some ''Song1.WAV''"
  by (simp add: example_files_def str_lower_def lower_char_def ascii_uppercase_def ascii_lowercase_def)

text \<open>
  Claim C6. When the FILE_NAME request names a catalog file that is found in the
  directory and opens as a WAV file of native frame rate \<open>rate\<close> (an unsigned 32-bit
  header field), the Content role queues STREAM_MODE_ENTER with the text
  \<open>11025.0\<close> if the rate is exactly 22050 and with the decimal numeral of the rate
  otherwise; the Client that handles this message sets its playback rate to 11025 in the
  first case and to the native rate in every other case.
\<close>

theorem sample_rate_reported:
  assumes "get_music_files files st = (True, st1)"
    and "2 \<le> length messages"
    and "List.member (music_files st1) (messages ! 1)"
    and "find (\<lambda>file. str_lower file = messages ! 1 @ ''.wav'') files = Some entry"
    and "framerate entry = Some rate"
    and "rate < 2 ^ 32"
  shows "file_name_request files framerate st messages =
           Inr (push_message (st1\<lparr>file_to_stream := Some entry, stream_mode := True\<rparr>)
                  (''STREAM_MODE_ENTER|'' @ (if rate = 22050 then ''11025.0'' else str_nat rate))) \<and>
         client_stream_mode_enter cl
           (str_split CHR ''|'' (''STREAM_MODE_ENTER|'' @ (if rate = 22050 then ''11025.0'' else str_nat rate))) =
           Inr (push_message
                  (cl\<lparr>client_stream_mode := True,
                      music_rate := (if rate = 22050 then 11025 else int rate)\<rparr>)
                  ''CLIENT_STREAM_MODE_ENTER'')"
proof -
  have rendered: "str_num (sample_rate_policy rate) = (if rate = 22050 then ''11025.0'' else str_nat rate)"
    by (simp add: str_num_policy str_nat_11025)
  have server: "file_name_request files framerate st messages =
           Inr (push_message (st1\<lparr>file_to_stream := Some entry, stream_mode := True\<rparr>)
                  (''STREAM_MODE_ENTER|'' @ (if rate = 22050 then ''11025.0'' else str_nat rate)))"
    using assms by (simp add: file_name_request_def rendered)
  have pipe: "CHR ''|'' \<notin> set (str_num (sample_rate_policy rate))"
  proof -
    have "CHR ''|'' \<notin> set (str_nat n)" for n
    proof (induction n rule: str_nat.induct)
      case (1 n)
      have d: "digits ! (n mod 10) \<noteq> CHR ''|''"
        using digits_pipe [of "n mod 10"] by simp
      show ?case
      proof (cases "n < 10")
        case True
        then show ?thesis using digits_pipe [of n] by (subst str_nat.simps) simp
      next
        case False
        with 1 d show ?thesis by (subst str_nat.simps) simp
      qed
    qed
    then show ?thesis by (simp add: str_num_policy)
  qed
  have "str_split CHR ''|'' (''STREAM_MODE_ENTER'' @ CHR ''|'' # str_num (sample_rate_policy rate)) =
          ''STREAM_MODE_ENTER'' # str_split CHR ''|'' (str_num (sample_rate_policy rate))"
    by (rule str_split_first) simp
  then have split: "str_split CHR ''|'' (''STREAM_MODE_ENTER|'' @ str_num (sample_rate_policy rate)) =
          [''STREAM_MODE_ENTER'', str_num (sample_rate_policy rate)]"
    by (simp add: str_split_absent [OF pipe])
  have "client_stream_mode_enter cl
           (str_split CHR ''|'' (''STREAM_MODE_ENTER|'' @ str_num (sample_rate_policy rate))) =
           Inr (push_message
                  (cl\<lparr>client_stream_mode := True,
                      music_rate := (if rate = 22050 then 11025 else int rate)\<rparr>)
                  ''CLIENT_STREAM_MODE_ENTER'')"
    unfolding split
    using py_int_real [of 11025] py_int_real [of rate]
    by (simp add: client_stream_mode_enter_def py_float_policy)
  with server show ?thesis by (simp only: rendered)
qed

text \<open>The theorem for the file \<open>Song1.WAV\<close>, requested as \<open>SONG1\<close>.\<close>

theorem sample_rate_reported_witness:
  "get_music_files example_files example_content = (True, example_content\<lparr>music_files := [''song1'']\<rparr>) \<and>
   2 \<le> length (str_split CHR ''|'' (file_name_message '' SONG1 '')) \<and>
   List.member (music_files (example_content\<lparr>music_files := [''song1'']\<rparr>))
     (str_split CHR ''|'' (file_name_message '' SONG1 '') ! 1) \<and>
   find (\<lambda>file. str_lower file = str_split CHR ''|'' (file_name_message '' SONG1 '') ! 1 @ ''.wav'')
     example_files = Some ''Song1.WAV'' \<and>
   example_framerate ''Song1.WAV'' = Some 22050 \<and>
   (22050 :: nat) < 2 ^ 32 \<and>
   file_name_request example_files example_framerate example_content
       (str_split CHR ''|'' (file_name_message '' SONG1 '')) =
     Inr (push_message
            (example_content\<lparr>music_files := [''song1''], file_to_stream := Some ''Song1.WAV'',
                             stream_mode := True\<rparr>)
            ''STREAM_MODE_ENTER|11025.0'') \<and>
   client_stream_mode_enter example_client (str_split CHR ''|'' ''STREAM_MODE_ENTER|11025.0'') =
     Inr (push_message (example_client\<lparr>client_stream_mode := True, music_rate := 11025\<rparr>)
            ''CLIENT_STREAM_MODE_ENTER'')"
proof -
  have h2: "2 \<le> length [''FILE_NAME'', ''song1'']" by simp
  have h3: "List.member (music_files (example_content\<lparr>music_files := [''song1'']\<rparr>))
              ([''FILE_NAME'', ''song1''] ! 1)" by simp
  have h5: "example_framerate ''Song1.WAV'' = Some 22050" by (simp add: example_framerate_def)
  have h6: "(22050 :: nat) < 2 ^ 32" by simp
  from sample_rate_reported [where framerate = example_framerate and cl = example_client
      and messages = "[''FILE_NAME'', ''song1'']" and entry = "''Song1.WAV''" and rate = 22050,
      OF example_get_music_files h2 h3 example_find h5 h6]
    example_get_music_files h2 h3 example_find h5 h6
  show ?thesis by (simp add: example_file_name_message)
qed

section \<open>Properties of the streaming frames\<close>

































end
